theory Spec2Isabelle
  imports Main
begin

unbundle bit_operations_syntax

section \<open>Data model (packages migration and schema)\<close>

text \<open>
  Go strings are byte sequences; they are modelled as \<open>string\<close> (a list of 8-bit
  characters). The bytes that the program names are given here.
\<close>

definition CR :: char where "CR = CHR 0x0D"
definition LF :: char where "LF = CHR 0x0A"
definition SQUOTE :: char where "SQUOTE = CHR 0x27"
definition DQUOTE :: char where "DQUOTE = CHR 0x22"

definition BOM :: string where
  "BOM = [CHR 0xEF, CHR 0xBB, CHR 0xBF]"

datatype MigrationType = TypeVersioned | TypeUndo | TypeRepeatable

text \<open>\<open>string(mig.Type)\<close>: the literal behind each constant of \<open>MigrationType\<close>.\<close>

fun type_string :: "MigrationType \<Rightarrow> string" where
  "type_string TypeVersioned = ''versioned''"
| "type_string TypeUndo = ''undo''"
| "type_string TypeRepeatable = ''repeatable''"

record Migration =
  Version :: string
  Description :: string
  Type :: MigrationType
  Filename :: string
  FilePath :: string
  Checksum :: string
  Statements :: "string list"
  RawContent :: string

text \<open>
  \<open>schema.AppliedMigration\<close>, a row of \<open>schema_migrations\<close>. The field names carry
  the prefix \<open>a\<close> to keep them apart from those of \<open>Migration\<close>. \<open>AppliedAt\<close> is a
  time in nanoseconds.
\<close>

record AppliedMigration =
  aVersion :: string
  aDescription :: string
  aType :: string
  aScript :: string
  aChecksum :: string
  aAppliedBy :: string
  aAppliedAt :: int
  aExecutionTimeMS :: int
  aSuccess :: bool


section \<open>Errors\<close>

text \<open>
  A Go \<open>error\<close> is a value with a message. \<open>External msg\<close> is an error that comes
  from outside the repository (the operating system, the driver) with its message;
  the three \<open>Unterminated\<close> errors are the parse errors of \<open>splitStatements\<close>;
  \<open>Wrapped p e\<close> is \<open>fmt.Errorf(p + ": %w", e)\<close>; \<open>LockTimeout\<close> is the error that
  \<open>Acquire\<close> returns at its deadline (its message is given without the duration);
  \<open>ErrNotFound\<close> is \<open>gocql.ErrNotFound\<close>.
\<close>

datatype error =
    External string
  | UnterminatedSingleQuote
  | UnterminatedDoubleQuote
  | UnterminatedBlockComment
  | LockTimeout
  | ErrNotFound
  | Wrapped string error


text \<open>The parse errors, as the specification groups them.\<close>

fun is_ParseError :: "error \<Rightarrow> bool" where
  "is_ParseError UnterminatedSingleQuote = True"
| "is_ParseError UnterminatedDoubleQuote = True"
| "is_ParseError UnterminatedBlockComment = True"
| "is_ParseError _ = False"

section \<open>The statement splitter (internal/migration/parser.go)\<close>

text \<open>
  \<open>strings.TrimSpace\<close> removes leading and trailing white space. On bytes below 0x80
  the white space of Go is tab, line feed, vertical tab, form feed, carriage return
  and space.
\<close>

definition isSpace :: "char \<Rightarrow> bool" where
  "isSpace c = (c \<in> set [CHR 0x09, CHR 0x0A, CHR 0x0B, CHR 0x0C, CHR 0x0D, CHR 0x20])"

definition TrimSpace :: "string \<Rightarrow> string" where
  "TrimSpace s = rev (dropWhile isSpace (rev (dropWhile isSpace s)))"

text \<open>
  The local variables of \<open>splitStatements\<close>. The loop walks over the runes of the
  content; the model walks over its characters, which are the runes when the content
  is ASCII (every content evaluated below is).
\<close>

record scanner =
  statements :: "string list"
  current :: string
  inSingleQuote :: bool
  inDoubleQuote :: bool
  inLineComment :: bool
  inBlockComment :: bool

text \<open>\<open>i+1 < length && runes[i+1] == c\<close>, where \<open>rest\<close> is what follows \<open>runes[i]\<close>.\<close>

definition next_is :: "string \<Rightarrow> char \<Rightarrow> bool" where
  "next_is rest c = (case rest of [] \<Rightarrow> False | d # _ \<Rightarrow> d = c)"

text \<open>The statement separator: push the trimmed buffer if it is not empty, reset it.\<close>

definition push_statement :: "scanner \<Rightarrow> scanner" where
  "push_statement s =
     (let stmt = TrimSpace (current s)
      in (if stmt \<noteq> [] then s\<lparr>statements := statements s @ [stmt]\<rparr> else s)
           \<lparr>current := []\<rparr>)"

text \<open>
  One turn of the loop at the rune \<open>ch\<close>, with \<open>rest\<close> the runes after it: the new
  values of the local variables and the runes still to read (\<open>tl rest\<close> where the loop
  body skips a rune with \<open>i++\<close>).
\<close>

definition scan_step :: "scanner \<Rightarrow> char \<Rightarrow> string \<Rightarrow> scanner \<times> string" where
  "scan_step s ch rest =
     (if inLineComment s then
        (if ch = LF then (s\<lparr>inLineComment := False, current := current s @ [ch]\<rparr>, rest)
         else (s, rest))
      else if inBlockComment s then
        (if ch = CHR ''*'' \<and> next_is rest (CHR ''/'')
         then (s\<lparr>inBlockComment := False\<rparr>, tl rest)
         else (s, rest))
      else if \<not> inSingleQuote s \<and> \<not> inDoubleQuote s \<and> ch = CHR ''-'' \<and> next_is rest (CHR ''-'')
        then (s\<lparr>inLineComment := True\<rparr>, tl rest)
      else if \<not> inSingleQuote s \<and> \<not> inDoubleQuote s \<and> ch = CHR ''/'' \<and> next_is rest (CHR ''*'')
        then (s\<lparr>inBlockComment := True\<rparr>, tl rest)
      else if \<not> inDoubleQuote s \<and> ch = SQUOTE then
        (if inSingleQuote s \<and> next_is rest SQUOTE
         then (s\<lparr>current := current s @ [ch, SQUOTE]\<rparr>, tl rest)
         else (s\<lparr>inSingleQuote := \<not> inSingleQuote s, current := current s @ [ch]\<rparr>, rest))
      else if \<not> inSingleQuote s \<and> ch = DQUOTE
        then (s\<lparr>inDoubleQuote := \<not> inDoubleQuote s, current := current s @ [ch]\<rparr>, rest)
      else if \<not> inSingleQuote s \<and> \<not> inDoubleQuote s \<and> ch = CHR '';''
        then (push_statement s, rest)
      else (s\<lparr>current := current s @ [ch]\<rparr>, rest))"

lemma scan_step_rest: "length (snd (scan_step s ch rest)) \<le> length rest"
  by (simp add: scan_step_def)

function scan :: "scanner \<Rightarrow> string \<Rightarrow> scanner" where
  "scan s [] = s"
| "scan s (ch # rest) = scan (fst (scan_step s ch rest)) (snd (scan_step s ch rest))"
  by pat_completeness auto
termination
  by (relation "measure (\<lambda>(s, cs). length cs)")
     (simp_all add: case_prod_beta scan_step_rest le_imp_less_Suc)

definition scanner0 :: scanner where
  "scanner0 = \<lparr>statements = [], current = [], inSingleQuote = False,
     inDoubleQuote = False, inLineComment = False, inBlockComment = False\<rparr>"

definition splitStatements :: "string \<Rightarrow> error + string list" where
  "splitStatements content =
     (let s = scan scanner0 content in
      if inSingleQuote s then Inl UnterminatedSingleQuote
      else if inDoubleQuote s then Inl UnterminatedDoubleQuote
      else if inBlockComment s then Inl UnterminatedBlockComment
      else Inr (statements (push_statement s)))"

section \<open>SHA-256 (crypto/sha256 of the Go standard library)\<close>

text \<open>
  \<open>sha256.Sum256\<close> is FIPS 180-4 SHA-256. Its 32-bit words are integers in
  \<open>{0 ..< 2 ^ 32}\<close> with the wrap-around of the addition written out.
\<close>

type_synonym u32 = int

definition add32 :: "u32 \<Rightarrow> u32 \<Rightarrow> u32" where
  "add32 x y = (x + y) mod 4294967296"

definition not32 :: "u32 \<Rightarrow> u32" where
  "not32 x = 4294967295 - x"

definition rotr :: "nat \<Rightarrow> u32 \<Rightarrow> u32" where
  "rotr n x = x div 2 ^ n + (x mod 2 ^ n) * 2 ^ (32 - n)"

definition shr :: "nat \<Rightarrow> u32 \<Rightarrow> u32" where
  "shr n x = x div 2 ^ n"

definition Ch :: "u32 \<Rightarrow> u32 \<Rightarrow> u32 \<Rightarrow> u32" where
  "Ch x y z = (x AND y) XOR (not32 x AND z)"

definition Maj :: "u32 \<Rightarrow> u32 \<Rightarrow> u32 \<Rightarrow> u32" where
  "Maj x y z = (x AND y) XOR (x AND z) XOR (y AND z)"

definition bsig0 :: "u32 \<Rightarrow> u32" where
  "bsig0 x = rotr 2 x XOR rotr 13 x XOR rotr 22 x"

definition bsig1 :: "u32 \<Rightarrow> u32" where
  "bsig1 x = rotr 6 x XOR rotr 11 x XOR rotr 25 x"

definition ssig0 :: "u32 \<Rightarrow> u32" where
  "ssig0 x = rotr 7 x XOR rotr 18 x XOR shr 3 x"

definition ssig1 :: "u32 \<Rightarrow> u32" where
  "ssig1 x = rotr 17 x XOR rotr 19 x XOR shr 10 x"

text \<open>
  The round constants: the first 32 bits of the fractional parts of the cube roots of
  the first 64 primes.
\<close>

definition K256 :: "u32 list" where
  "K256 =
    [1116352408, 1899447441, 3049323471, 3921009573, 961987163, 1508970993,
     2453635748, 2870763221, 3624381080, 310598401, 607225278, 1426881987,
     1925078388, 2162078206, 2614888103, 3248222580, 3835390401, 4022224774,
     264347078, 604807628, 770255983, 1249150122, 1555081692, 1996064986,
     2554220882, 2821834349, 2952996808, 3210313671, 3336571891, 3584528711,
     113926993, 338241895, 666307205, 773529912, 1294757372, 1396182291,
     1695183700, 1986661051, 2177026350, 2456956037, 2730485921, 2820302411,
     3259730800, 3345764771, 3516065817, 3600352804, 4094571909, 275423344,
     430227734, 506948616, 659060556, 883997877, 958139571, 1322822218,
     1537002063, 1747873779, 1955562222, 2024104815, 2227730452, 2361852424,
     2428436474, 2756734187, 3204031479, 3329325298]"

type_synonym digest = "u32 \<times> u32 \<times> u32 \<times> u32 \<times> u32 \<times> u32 \<times> u32 \<times> u32"

text \<open>The initial hash value: from the square roots of the first 8 primes.\<close>

definition H256 :: digest where
  "H256 = (1779033703, 3144134277, 1013904242, 2773480762,
           1359893119, 2600822924, 528734635, 1541459225)"

definition T1 :: "u32 \<Rightarrow> u32 \<Rightarrow> u32 \<Rightarrow> u32 \<Rightarrow> u32 \<Rightarrow> u32 \<Rightarrow> u32" where
  "T1 e f g h k w = add32 (add32 (add32 (add32 h (bsig1 e)) (Ch e f g)) k) w"

fun sha_round :: "digest \<Rightarrow> u32 \<Rightarrow> u32 \<Rightarrow> digest" where
  "sha_round (a, b, c, d, e, f, g, h) k w =
     (add32 (T1 e f g h k w) (add32 (bsig0 a) (Maj a b c)), a, b, c,
      add32 d (T1 e f g h k w), e, f, g)"

definition next_w :: "u32 list \<Rightarrow> u32" where
  "next_w w = add32 (add32 (add32 (ssig1 (w ! 14)) (w ! 9)) (ssig0 (w ! 1))) (w ! 0)"

fun rounds :: "u32 list \<Rightarrow> u32 list \<Rightarrow> digest \<Rightarrow> digest" where
  "rounds [] w s = s"
| "rounds (k # ks) w s = rounds ks (tl w @ [next_w w]) (sha_round s k (w ! 0))"

fun add_digest :: "digest \<Rightarrow> digest \<Rightarrow> digest" where
  "add_digest (a, b, c, d, e, f, g, h) (a', b', c', d', e', f', g', h')
     = (add32 a a', add32 b b', add32 c c', add32 d d', add32 e e', add32 f f', add32 g g', add32 h h')"

fun be32 :: "u32 list \<Rightarrow> u32 list" where
  "be32 (a # b # c # d # bs) =
     (a * 16777216 + b * 65536 + c * 256 + d) # be32 bs"
| "be32 _ = []"

definition compress :: "digest \<Rightarrow> u32 list \<Rightarrow> digest" where
  "compress H block = add_digest H (rounds K256 (be32 block) H)"

definition be64 :: "nat \<Rightarrow> u32 list" where
  "be64 n = map (\<lambda>i. int ((n div 256 ^ i) mod 256)) [7, 6, 5, 4, 3, 2, 1, 0]"

definition pad :: "u32 list \<Rightarrow> u32 list" where
  "pad m = m @ [128] @ replicate ((119 - length m mod 64) mod 64) 0 @ be64 (8 * length m)"

fun blocks :: "u32 list \<Rightarrow> u32 list list" where
  "blocks [] = []"
| "blocks (x # xs) = take 64 (x # xs) # blocks (drop 63 xs)"

text \<open>The message as bytes, padded, cut into blocks of 64 bytes and compressed.\<close>

definition Sum256 :: "string \<Rightarrow> digest" where
  "Sum256 s = foldl compress H256 (blocks (pad (map of_char s)))"

text \<open>\<open>fmt.Sprintf("%x", hash)\<close>: two lowercase hexadecimal digits for each byte.\<close>

definition hexdigit :: "u32 \<Rightarrow> char" where
  "hexdigit x = ''0123456789abcdef'' ! nat (x mod 16)"

definition hex32 :: "u32 \<Rightarrow> string" where
  "hex32 w = map (\<lambda>i. hexdigit (shr i w)) [28, 24, 20, 16, 12, 8, 4, 0]"

fun hexdigest :: "digest \<Rightarrow> string" where
  "hexdigest (a, b, c, d, e, f, g, h) =
     hex32 a @ hex32 b @ hex32 c @ hex32 d @ hex32 e @ hex32 f @ hex32 g @ hex32 h"

section \<open>Checksum (package migration)\<close>

text \<open>\<open>strings.ReplaceAll(s, "\r\n", "\n")\<close>: one pass from left to right.\<close>

fun ReplaceAll_CRLF :: "string \<Rightarrow> string" where
  "ReplaceAll_CRLF (c # d # rest) =
     (if c = CR \<and> d = LF then LF # ReplaceAll_CRLF rest else c # ReplaceAll_CRLF (d # rest))"
| "ReplaceAll_CRLF s = s"

text \<open>\<open>strings.TrimPrefix(s, prefix)\<close>: the prefix is removed once, when it is there.\<close>

definition HasPrefix :: "string \<Rightarrow> string \<Rightarrow> bool" where
  "HasPrefix s p = (take (length p) s = p)"

definition TrimPrefix :: "string \<Rightarrow> string \<Rightarrow> string" where
  "TrimPrefix s p = (if HasPrefix s p then drop (length p) s else s)"

text \<open>\<open>strings.Contains(s, p)\<close>: the bytes \<open>p\<close> occur in \<open>s\<close>, one after the other.\<close>

fun Contains :: "string \<Rightarrow> string \<Rightarrow> bool" where
  "Contains [] p = (p = [])"
| "Contains (c # s) p = (HasPrefix (c # s) p \<or> Contains s p)"

text \<open>The function returns \<open>(string, error)\<close>; the error is always \<open>nil\<close>.\<close>

definition CalculateChecksumFromContent :: "string \<Rightarrow> error + string" where
  "CalculateChecksumFromContent content =
     (let normalized = ReplaceAll_CRLF content
      in Inr (hexdigest (Sum256 normalized)))"

section \<open>Parsing a migration file (internal/migration/parser.go)\<close>

text \<open>
  The file system as \<open>os.ReadFile\<close> sees it: for each path either an error or the
  bytes of the file.
\<close>

type_synonym filesystem = "string \<Rightarrow> error + string"

text \<open>
  \<open>ParseMigrationFile\<close> writes into the migration it is given and returns an error or
  \<open>nil\<close>. The model returns the migration as it is left behind, also when the call
  fails, and the error.
\<close>

definition ParseMigrationFile :: "filesystem \<Rightarrow> Migration \<Rightarrow> Migration \<times> error option" where
  "ParseMigrationFile fs mig =
     (case fs (FilePath mig) of
        Inl err \<Rightarrow> (mig, Some (Wrapped (''failed to read migration file '' @ FilePath mig) err))
      | Inr content \<Rightarrow>
          (let raw = TrimPrefix content BOM;
               mig1 = mig\<lparr>RawContent := raw\<rparr>;
               raw' = ReplaceAll_CRLF raw
           in case CalculateChecksumFromContent raw' of
                Inl err \<Rightarrow> (mig1, Some (Wrapped ''failed to calculate checksum'' err))
              | Inr checksum \<Rightarrow>
                  (let mig2 = mig1\<lparr>Checksum := checksum\<rparr>
                   in case splitStatements raw' of
                        Inl err \<Rightarrow>
                          (mig2, Some (Wrapped (''failed to parse CQL statements in '' @ Filename mig) err))
                      | Inr stmts \<Rightarrow> (mig2\<lparr>Statements := stmts\<rparr>, None))))"

text \<open>
  The checksum that \<open>ParseMigrationFile\<close> stores for a file with the bytes \<open>content\<close>
  (it does not depend on the migration nor on the path).
\<close>

definition file_checksum :: "string \<Rightarrow> string" where
  "file_checksum content =
     Checksum (fst (ParseMigrationFile (\<lambda>path. Inr content)
       \<lparr>Version = [], Description = [], Type = TypeVersioned, Filename = [], FilePath = [],
        Checksum = [], Statements = [], RawContent = []\<rparr>))"

section \<open>Versions (package migration)\<close>












section \<open>The resolver (internal/migration/resolver.go)\<close>

text \<open>
  \<open>appliedMap\<close> of \<open>GetPendingMigrations\<close>: the rows with \<open>Success\<close>, under their
  \<open>Version\<close>; a later row replaces an earlier one with the same key.
\<close>

definition appliedMap_of :: "AppliedMigration list \<Rightarrow> (string \<rightharpoonup> AppliedMigration)" where
  "appliedMap_of applied =
     foldl (\<lambda>m a. if aSuccess a then m(aVersion a \<mapsto> a) else m) Map.empty applied"

text \<open>
  The loop over \<open>r.migrations\<close>, with the list \<open>pending\<close> so far. A parse error ends
  the call. The migrations are pointers in the source, and \<open>pending\<close> holds them as
  \<open>ParseMigrationFile\<close> has left them.
\<close>

fun pending_loop ::
  "filesystem \<Rightarrow> (string \<rightharpoonup> AppliedMigration) \<Rightarrow> Migration list \<Rightarrow> Migration list
     \<Rightarrow> error + Migration list" where
  "pending_loop fs appliedMap [] pending = Inr pending"
| "pending_loop fs appliedMap (mig # rest) pending =
     (case Type mig of
        TypeVersioned \<Rightarrow>
          (if appliedMap (Version mig) = None then
             (case ParseMigrationFile fs mig of
                (mig', Some err) \<Rightarrow>
                  Inl (Wrapped (''failed to parse migration '' @ Filename mig') err)
              | (mig', None) \<Rightarrow> pending_loop fs appliedMap rest (pending @ [mig']))
           else pending_loop fs appliedMap rest pending)
      | TypeRepeatable \<Rightarrow>
          (case ParseMigrationFile fs mig of
             (mig', Some err) \<Rightarrow>
               Inl (Wrapped (''failed to parse migration '' @ Filename mig') err)
           | (mig', None) \<Rightarrow>
               (let key = Version mig' @ ''_'' @ Description mig'
                in case appliedMap key of
                     None \<Rightarrow> pending_loop fs appliedMap rest (pending @ [mig'])
                   | Some a \<Rightarrow>
                       if aChecksum a \<noteq> Checksum mig'
                       then pending_loop fs appliedMap rest (pending @ [mig'])
                       else pending_loop fs appliedMap rest pending))
      | TypeUndo \<Rightarrow> pending_loop fs appliedMap rest pending)"

text \<open>
  Whether \<open>GetPendingMigrations\<close> appends a migration to \<open>pending\<close>, given
  \<open>appliedMap\<close>.
\<close>

definition included :: "filesystem \<Rightarrow> (string \<rightharpoonup> AppliedMigration) \<Rightarrow> Migration \<Rightarrow> bool" where
  "included fs am mig =
     (case Type mig of
        TypeVersioned \<Rightarrow> am (Version mig) = None
      | TypeRepeatable \<Rightarrow>
          (case am (Version mig @ ''_'' @ Description mig) of
             None \<Rightarrow> True
           | Some a \<Rightarrow> aChecksum a \<noteq> Checksum (fst (ParseMigrationFile fs mig)))
      | TypeUndo \<Rightarrow> False)"

definition GetPendingMigrations ::
  "filesystem \<Rightarrow> Migration list \<Rightarrow> AppliedMigration list \<Rightarrow> error + Migration list" where
  "GetPendingMigrations fs migrations applied =
     pending_loop fs (appliedMap_of applied) migrations []"




section \<open>The status command (cmd/status.go)\<close>

record statusEntry =
  seVersion :: string
  seDescription :: string
  seType :: string
  seStatus :: string
  seAppliedAt :: string
  seChecksumMatch :: string

text \<open>
  \<open>appliedMap\<close> of the status command: every applied row, successful or not, of any
  type, under its \<open>Version\<close>; the value is the formatted time, the checksum and the
  success flag. \<open>format_time\<close> stands for \<open>AppliedAt.Format("2006-01-02 15:04:05")\<close>.
\<close>

definition status_appliedMap ::
  "(int \<Rightarrow> string) \<Rightarrow> AppliedMigration list \<Rightarrow> (string \<rightharpoonup> string \<times> string \<times> bool)" where
  "status_appliedMap format_time applied =
     foldl (\<lambda>m a. m(aVersion a \<mapsto> (format_time (aAppliedAt a), aChecksum a, aSuccess a)))
       Map.empty applied"

text \<open>The entry of one scanned migration, after it has been parsed.\<close>

definition status_entry :: "(string \<rightharpoonup> string \<times> string \<times> bool) \<Rightarrow> Migration \<Rightarrow> statusEntry" where
  "status_entry appliedMap mig =
     (let key = (if Type mig = TypeRepeatable then Version mig @ ''_'' @ Description mig
                 else Version mig)
      in case appliedMap key of
           Some (appliedAt, checksum, success) \<Rightarrow>
             \<lparr>seVersion = Version mig, seDescription = Description mig,
              seType = type_string (Type mig),
              seStatus = (if success then ''Applied'' else ''Failed''),
              seAppliedAt = appliedAt,
              seChecksumMatch = (if Checksum mig = checksum then ''OK'' else ''MISMATCH'')\<rparr>
         | None \<Rightarrow>
             \<lparr>seVersion = Version mig, seDescription = Description mig,
              seType = type_string (Type mig),
              seStatus = (if Type mig = TypeUndo then ''Available'' else ''Pending''),
              seAppliedAt = ''-'', seChecksumMatch = ''-''\<rparr>)"

text \<open>
  The entries that the command prints, one for each scanned migration in order. The
  files are parsed first and the errors of the parser are dropped.
\<close>

definition status_entries ::
  "filesystem \<Rightarrow> (int \<Rightarrow> string) \<Rightarrow> Migration list \<Rightarrow> AppliedMigration list \<Rightarrow> statusEntry list" where
  "status_entries fs format_time scanned applied =
     map (\<lambda>mig. status_entry (status_appliedMap format_time applied)
                  (fst (ParseMigrationFile fs mig))) scanned"

section \<open>The cluster, the clock and the driver\<close>

text \<open>
  Everything outside the process is a state \<open>'w\<close>: the cluster with its tables, the
  other agents, the clock. The record holds what the program can do to it; each call
  returns its result and the state after it. Times and durations are in nanoseconds.
  A call to the driver may panic: \<open>Panics\<close> carries the value of the panic.
\<close>

datatype 'a outcome = Returns 'a | Panics string

record Lock =
  ID :: string
  LockedBy :: string
  LockedAt :: int
  ExpiresAt :: int

record 'w cluster =
  now :: "'w \<Rightarrow> int"
  sleep :: "int \<Rightarrow> 'w \<Rightarrow> 'w"
  executeLWT :: "Lock \<Rightarrow> int \<Rightarrow> 'w \<Rightarrow> (error + bool) \<times> 'w"
  GetCurrentLock :: "'w \<Rightarrow> (error + Lock) \<times> 'w"
  forceRelease :: "'w \<Rightarrow> error option \<times> 'w"
  SessionExecute :: "string \<Rightarrow> 'w \<Rightarrow> error option outcome \<times> 'w"
  WaitForSchemaAgreement :: "int \<Rightarrow> 'w \<Rightarrow> error option outcome \<times> 'w"
  insertMigration :: "AppliedMigration \<Rightarrow> 'w \<Rightarrow> error option outcome \<times> 'w"

definition Second :: int where
  "Second = 1000000000"

section \<open>The lock manager (package lock)\<close>

definition MigrationLockID :: string where
  "MigrationLockID = ''migration_lock''"

text \<open>The calls that \<open>Acquire\<close> makes, in order: what an observer of the process sees.\<close>

datatype call = CallExecuteLWT | CallGetCurrentLock | CallForceRelease | CallSleep int

text \<open>\<open>if backoff < 10*time.Second { backoff = backoff * 2 }\<close>\<close>

definition next_backoff :: "int \<Rightarrow> int" where
  "next_backoff backoff = (if backoff < 10 * Second then backoff * 2 else backoff)"

text \<open>
  One turn of the loop of \<open>Acquire\<close>: it returns (\<open>Done\<close>, with the error or \<open>nil\<close>) or
  goes on to the next test of the deadline (\<open>Again\<close>, with the new \<open>backoff\<close>).
  \<open>executeLWT\<close> stands for the insert \<open>IF NOT EXISTS\<close> of the row with its TTL.
\<close>

datatype 'w turn = Done "error option" 'w "call list" | Again int 'w "call list"

definition Acquire_turn :: "'w cluster \<Rightarrow> string \<Rightarrow> int \<Rightarrow> int \<Rightarrow> int \<Rightarrow> 'w \<Rightarrow> 'w turn" where
  "Acquire_turn lm owner timeout ttl backoff w =
     (case executeLWT lm \<lparr>ID = MigrationLockID, LockedBy = owner, LockedAt = now lm w,
                           ExpiresAt = now lm w + timeout\<rparr> ttl w of
        (Inl err, w1) \<Rightarrow>
          Done (Some (Wrapped ''failed to execute lock query'' err)) w1 [CallExecuteLWT]
      | (Inr True, w1) \<Rightarrow> Done None w1 [CallExecuteLWT]
      | (Inr False, w1) \<Rightarrow>
          (case GetCurrentLock lm w1 of
             (Inl err, w2) \<Rightarrow>
               Again (next_backoff backoff) (sleep lm backoff w2)
                 [CallExecuteLWT, CallGetCurrentLock, CallSleep backoff]
           | (Inr lock, w2) \<Rightarrow>
               if ExpiresAt lock < now lm w2
               then Again backoff (snd (forceRelease lm w2))
                      [CallExecuteLWT, CallGetCurrentLock, CallForceRelease]
               else Again (next_backoff backoff) (sleep lm backoff w2)
                      [CallExecuteLWT, CallGetCurrentLock, CallSleep backoff]))"

text \<open>
  The loop \<open>for time.Now().Before(deadline)\<close>. Nothing bounds the number of turns
  (a turn that steals an expired lock does not sleep), so the model counts them down
  from \<open>fuel\<close>: the result is \<open>None\<close> when the loop is still running after that many
  turns, and \<open>Some\<close> of what \<open>Acquire\<close> returns otherwise; with it come the state and
  the calls made.
\<close>

fun Acquire_loop ::
  "nat \<Rightarrow> 'w cluster \<Rightarrow> string \<Rightarrow> int \<Rightarrow> int \<Rightarrow> int \<Rightarrow> int \<Rightarrow> 'w
     \<Rightarrow> error option option \<times> 'w \<times> call list" where
  "Acquire_loop 0 lm owner timeout ttl deadline backoff w = (None, w, [])"
| "Acquire_loop (Suc fuel) lm owner timeout ttl deadline backoff w =
     (if now lm w < deadline then
        (case Acquire_turn lm owner timeout ttl backoff w of
           Done r w' cs \<Rightarrow> (Some r, w', cs)
         | Again backoff' w' cs \<Rightarrow>
             (case Acquire_loop fuel lm owner timeout ttl deadline backoff' w' of
                (r, w'', cs') \<Rightarrow> (r, w'', cs @ cs')))
      else (Some (Some LockTimeout), w, []))"

text \<open>
  \<open>ttl := int(timeout.Seconds()) + 60\<close> is the whole seconds of the timeout plus 60
  (the rounding of the floating-point division is left out).
\<close>

definition Acquire ::
  "nat \<Rightarrow> 'w cluster \<Rightarrow> string \<Rightarrow> int \<Rightarrow> 'w \<Rightarrow> error option option \<times> 'w \<times> call list" where
  "Acquire fuel lm owner timeout w =
     Acquire_loop fuel lm owner timeout (timeout div Second + 60) (now lm w + timeout)
       (1 * Second) w"

text \<open>The sleep after \<open>j\<close> earlier sleeps: 1, 2, 4, 8, 16, 16, ... seconds.\<close>

definition nth_backoff :: "nat \<Rightarrow> int" where
  "nth_backoff j = Second * min (2 ^ j) 16"

text \<open>The durations of the sleeps among the calls.\<close>

fun sleeps :: "call list \<Rightarrow> int list" where
  "sleeps [] = []"
| "sleeps (CallSleep d # cs) = d # sleeps cs"
| "sleeps (c # cs) = sleeps cs"

text \<open>
  A cluster in which the lock is held by another agent until the time \<open>expires\<close>, and
  one in which the insert is refused although no row is found; the state is the
  clock, and only sleeping moves it.
\<close>

definition held_cluster :: "int \<Rightarrow> int cluster" where
  "held_cluster expires =
     \<lparr>now = (\<lambda>w. w), sleep = (\<lambda>d w. w + d),
      executeLWT = (\<lambda>row ttl w. (Inr False, w)),
      GetCurrentLock = (\<lambda>w. (Inr \<lparr>ID = MigrationLockID, LockedBy = ''other-1a2b3c4d'',
                                    LockedAt = 0, ExpiresAt = expires\<rparr>, w)),
      forceRelease = (\<lambda>w. (None, w)),
      SessionExecute = (\<lambda>stmt w. (Returns None, w)),
      WaitForSchemaAgreement = (\<lambda>t w. (Returns None, w)),
      insertMigration = (\<lambda>row w. (Returns None, w))\<rparr>"

definition absent_cluster :: "int cluster" where
  "absent_cluster = (held_cluster 0)\<lparr>GetCurrentLock := (\<lambda>w. (Inl ErrNotFound, w))\<rparr>"

section \<open>The executor (internal/migration/executor.go, package schema)\<close>














section \<open>Example data\<close>

text \<open>
  A migration as \<open>ScanMigrationsDir\<close> builds it from a file name (not yet parsed), a
  row of \<open>schema_migrations\<close>, and a directory in which every file reads \<open>content\<close>.
\<close>

definition scanned_migration :: "MigrationType \<Rightarrow> string \<Rightarrow> string \<Rightarrow> Migration" where
  "scanned_migration t v name =
     \<lparr>Version = v, Description = ''a'', Type = t, Filename = name,
      FilePath = ''migrations/'' @ name, Checksum = [], Statements = [], RawContent = []\<rparr>"

definition applied_row :: "string \<Rightarrow> string \<Rightarrow> bool \<Rightarrow> AppliedMigration" where
  "applied_row v t ok =
     \<lparr>aVersion = v, aDescription = ''a'', aType = t, aScript = ''script.cql'',
      aChecksum = ''x'', aAppliedBy = ''host'', aAppliedAt = 0, aExecutionTimeMS = 1,
      aSuccess = ok\<rparr>"

definition files_with :: "string \<Rightarrow> filesystem" where
  "files_with content = (\<lambda>path. Inr content)"




section \<open>Properties of the statement splitter\<close>

lemmas splitter_eval =
  splitStatements_def scan_step_def scanner0_def push_statement_def TrimSpace_def isSpace_def
  next_is_def SQUOTE_def DQUOTE_def LF_def Let_def

text \<open>
  C7. On \<open>INSERT INTO t(name) VALUES ('it''s a test');\<close> the splitter returns the one
  statement \<open>INSERT INTO t(name) VALUES ('it''s a test')\<close>, the doubled quote kept as
  it is; on \<open>/* x\<close> it fails with the parse error of an unterminated block comment;
  on \<open>CREATE TABLE "my;table" (id UUID PRIMARY KEY);\<close> it returns one statement that
  keeps the semicolon inside the double quotes.
\<close>

theorem splitStatements_S5:
  "splitStatements (''INSERT INTO t(name) VALUES ('' @ [SQUOTE] @ ''it'' @ [SQUOTE, SQUOTE]
        @ ''s a test'' @ [SQUOTE] @ '');'')
     = Inr [''INSERT INTO t(name) VALUES ('' @ [SQUOTE] @ ''it'' @ [SQUOTE, SQUOTE]
        @ ''s a test'' @ [SQUOTE] @ '')'']
   \<and> splitStatements ''/* x'' = Inl UnterminatedBlockComment
   \<and> is_ParseError UnterminatedBlockComment
   \<and> splitStatements (''CREATE TABLE '' @ [DQUOTE] @ ''my;table'' @ [DQUOTE]
        @ '' (id UUID PRIMARY KEY);'')
     = Inr [''CREATE TABLE '' @ [DQUOTE] @ ''my;table'' @ [DQUOTE]
        @ '' (id UUID PRIMARY KEY)'']"
  by (simp add: splitter_eval)

section \<open>Properties of the checksum and of the parser\<close>

subsection \<open>Replacing line endings, trimming the byte order mark\<close>

lemma ReplaceAll_CRLF_prefix:
  "take (Suc j) (ReplaceAll_CRLF s) = replicate j CR @ [LF] \<Longrightarrow>
   (j = 0 \<and> take 1 s = [LF]) \<or> take (Suc (Suc j)) s = replicate (Suc j) CR @ [LF]"
proof (induction j arbitrary: s)
  case 0
  then show ?case
    by (cases s rule: ReplaceAll_CRLF.cases) (auto split: if_splits)
next
  case (Suc j)
  consider (nil) "s = []" | (one) c where "s = [c]" | (two) c d rest where "s = c # d # rest"
    by (cases s rule: ReplaceAll_CRLF.cases) auto
  then show ?case
  proof cases
    case nil
    with Suc.prems show ?thesis by simp
  next
    case one
    with Suc.prems show ?thesis by simp
  next
    case two
    show ?thesis
    proof (cases "c = CR \<and> d = LF")
      case True
      with two Suc.prems show ?thesis by (simp add: CR_def LF_def)
    next
      case False
      with two Suc.prems have c: "c = CR"
        and t: "take (Suc j) (ReplaceAll_CRLF (d # rest)) = replicate j CR @ [LF]"
        by auto
      from Suc.IH [OF t] c two False show ?thesis by auto
    qed
  qed
qed

lemma ReplaceAll_CRLF_Contains:
  "\<not> Contains s (replicate (Suc (Suc j)) CR @ [LF]) \<Longrightarrow>
   \<not> Contains (ReplaceAll_CRLF s) (replicate (Suc j) CR @ [LF])"
proof (induction s rule: ReplaceAll_CRLF.induct)
  case (1 c d rest)
  show ?case
  proof (cases "c = CR \<and> d = LF")
    case True
    with 1 show ?thesis by (auto simp: HasPrefix_def CR_def LF_def)
  next
    case False
    from 1(3) have nc: "\<not> Contains (d # rest) (replicate (Suc (Suc j)) CR @ [LF])"
      and np: "take (Suc (Suc (Suc j))) (c # d # rest) \<noteq> replicate (Suc (Suc j)) CR @ [LF]"
      by (auto simp: HasPrefix_def)
    from 1(2) [OF False nc] have ih: "\<not> Contains (ReplaceAll_CRLF (d # rest)) (replicate (Suc j) CR @ [LF])" .
    have ntake: "take (Suc (Suc j)) (c # ReplaceAll_CRLF (d # rest)) \<noteq> replicate (Suc j) CR @ [LF]"
    proof
      assume a: "take (Suc (Suc j)) (c # ReplaceAll_CRLF (d # rest)) = replicate (Suc j) CR @ [LF]"
      then have c: "c = CR" and t: "take (Suc j) (ReplaceAll_CRLF (d # rest)) = replicate j CR @ [LF]"
        by auto
      from ReplaceAll_CRLF_prefix [OF t] c False np show False by auto
    qed
    have eq: "ReplaceAll_CRLF (c # d # rest) = c # ReplaceAll_CRLF (d # rest)"
      by (simp only: ReplaceAll_CRLF.simps False if_False)
    have len: "length (replicate (Suc j) CR @ [LF]) = Suc (Suc j)"
      by simp
    show ?thesis
      unfolding eq Contains.simps HasPrefix_def len using ih ntake by blast
  qed
qed (simp_all add: HasPrefix_def)

lemma ReplaceAll_CRLF_fixed: "\<not> Contains s [CR, LF] \<Longrightarrow> ReplaceAll_CRLF s = s"
  by (induction s rule: ReplaceAll_CRLF.induct) (auto simp: HasPrefix_def)

lemma ReplaceAll_CRLF_stable:
  assumes "\<not> Contains s [CR, CR, CR, LF]"
  shows "ReplaceAll_CRLF (ReplaceAll_CRLF (ReplaceAll_CRLF s)) = ReplaceAll_CRLF (ReplaceAll_CRLF s)"
proof -
  from assms have "\<not> Contains s (replicate (Suc (Suc 1)) CR @ [LF])"
    by (simp add: numeral_eq_Suc)
  then have "\<not> Contains (ReplaceAll_CRLF s) (replicate (Suc 1) CR @ [LF])"
    by (rule ReplaceAll_CRLF_Contains)
  then have "\<not> Contains (ReplaceAll_CRLF (ReplaceAll_CRLF s)) (replicate (Suc 0) CR @ [LF])"
    using ReplaceAll_CRLF_Contains [of "ReplaceAll_CRLF s" 0] by simp
  then show ?thesis
    by (simp add: ReplaceAll_CRLF_fixed)
qed

lemma Contains_drop: "Contains (drop n s) p \<Longrightarrow> Contains s p"
proof (induction s arbitrary: n)
  case Nil then show ?case by simp
next
  case (Cons c s)
  then show ?case by (cases n) auto
qed

lemma TrimPrefix_ReplaceAll_CRLF:
  "TrimPrefix (ReplaceAll_CRLF s) BOM = ReplaceAll_CRLF (TrimPrefix s BOM)"
proof (cases s)
  case Nil then show ?thesis by (simp add: TrimPrefix_def HasPrefix_def BOM_def)
next
  case s1: (Cons a s')
  show ?thesis
  proof (cases s')
    case Nil with s1 show ?thesis by (simp add: TrimPrefix_def HasPrefix_def BOM_def)
  next
    case s2: (Cons b s'')
    show ?thesis
    proof (cases s'')
      case Nil with s1 s2 show ?thesis by (simp add: TrimPrefix_def HasPrefix_def BOM_def CR_def LF_def)
    next
      case s3: (Cons c t)
      show ?thesis
      proof (cases t)
        case Nil with s1 s2 s3 show ?thesis by (auto simp add: TrimPrefix_def HasPrefix_def BOM_def CR_def LF_def)
      next
        case (Cons d u)
        with s1 s2 s3 show ?thesis by (auto simp add: TrimPrefix_def HasPrefix_def BOM_def CR_def LF_def)
      qed
    qed
  qed
qed

lemma TrimPrefix_BOM_append: "\<not> HasPrefix x BOM \<Longrightarrow> TrimPrefix (BOM @ x) BOM = TrimPrefix x BOM"
  by (simp add: TrimPrefix_def HasPrefix_def)


subsection \<open>Evaluating SHA-256\<close>

lemma replicate_numeral: "replicate (numeral k) x = x # replicate (pred_numeral k) x"
  by (simp add: numeral_eq_Suc)

lemmas sha_eval = add32_def not32_def shr_def T1_def rotr_def Ch_def Maj_def bsig0_def bsig1_def
  ssig0_def ssig1_def K256_def H256_def next_w_def compress_def be64_def pad_def Sum256_def
  replicate_numeral hex32_def hexdigit_def

lemma sha256_empty:
  "hexdigest (Sum256 []) = ''e3b0c44298fc1c149afbf4c8996fb92427ae41e4649b934ca495991b7852b855''"
  by (simp add: sha_eval)

lemma sha256_LF:
  "hexdigest (Sum256 [CHR 0x0A]) = ''01ba4719c80b6fe911b091a7c05124b64eeece964e09c058ef8f9805daca546b''"
  by (simp add: sha_eval)

lemma sha256_CRLF:
  "hexdigest (Sum256 [CHR 0x0D, CHR 0x0A]) = ''7eb70257593da06f682a3ddda54a9d260d4fc514f645237f5ca74b08f8da61a6''"
  by (simp add: sha_eval)

lemma sha256_BOM:
  "hexdigest (Sum256 [CHR 0xEF, CHR 0xBB, CHR 0xBF]) = ''f1945cd6c19e56b3c1c78943ef5ec18116907a4ca1efc40a57d48ab1db7adfc5''"
  by (simp add: sha_eval)

lemma hexdigit_hex: "hexdigit x \<in> set ''0123456789abcdef''"
proof -
  have "nat (x mod 16) < length ''0123456789abcdef''"
    by simp
  then show ?thesis
    unfolding hexdigit_def by (rule nth_mem)
qed

lemma hex32_hex: "length (hex32 w) = 8 \<and> set (hex32 w) \<subseteq> set ''0123456789abcdef''"
  using hexdigit_hex by (auto simp: hex32_def)

lemma hexdigest_hex: "length (hexdigest d) = 64 \<and> set (hexdigest d) \<subseteq> set ''0123456789abcdef''"
proof -
  obtain a b c d' e f g h where d: "d = (a, b, c, d', e, f, g, h)"
    by (cases d) auto
  show ?thesis
    unfolding d hexdigest.simps using hex32_hex by (simp only: length_append set_append) auto
qed

subsection \<open>What the parser stores\<close>

lemma ParseMigrationFile_Inr:
  assumes "fs (FilePath mig) = Inr content"
  shows "RawContent (fst (ParseMigrationFile fs mig)) = TrimPrefix content BOM"
    and "Checksum (fst (ParseMigrationFile fs mig))
           = hexdigest (Sum256 (ReplaceAll_CRLF (ReplaceAll_CRLF (TrimPrefix content BOM))))"
  using assms
  by (simp_all add: ParseMigrationFile_def CalculateChecksumFromContent_def Let_def split: sum.splits)

lemma file_checksum_eq:
  "file_checksum x = hexdigest (Sum256 (ReplaceAll_CRLF (ReplaceAll_CRLF (TrimPrefix x BOM))))"
  unfolding file_checksum_def by (rule ParseMigrationFile_Inr(2)) simp

lemma Contains_TrimPrefix: "Contains (TrimPrefix s p) q \<Longrightarrow> Contains s q"
  by (auto simp: TrimPrefix_def dest: Contains_drop split: if_splits)

text \<open>
  C2, as the code has it. For every byte string \<open>x\<close> the checksum that
  \<open>ParseMigrationFile\<close> stores is 64 lowercase hexadecimal digits, the SHA-256 of \<open>x\<close>
  with one leading byte order mark removed and CRLF replaced by LF twice over (once
  in \<open>ParseMigrationFile\<close>, once more in \<open>CalculateChecksumFromContent\<close>). It is the
  checksum of \<open>x\<close> with every CRLF replaced by LF when \<open>x\<close> does not contain
  CR CR CR LF, and the checksum of the byte order mark followed by \<open>x\<close> when \<open>x\<close> does
  not itself begin with the byte order mark.
\<close>

theorem checksum_stability:
  "length (file_checksum x) = 64
   \<and> set (file_checksum x) \<subseteq> set ''0123456789abcdef''
   \<and> file_checksum x = hexdigest (Sum256 (ReplaceAll_CRLF (ReplaceAll_CRLF (TrimPrefix x BOM))))
   \<and> (\<not> Contains x [CR, CR, CR, LF] \<longrightarrow> file_checksum (ReplaceAll_CRLF x) = file_checksum x)
   \<and> (\<not> HasPrefix x BOM \<longrightarrow> file_checksum (BOM @ x) = file_checksum x)"
proof (intro conjI impI)
  show "length (file_checksum x) = 64"
    by (simp add: file_checksum_eq hexdigest_hex)
  show "set (file_checksum x) \<subseteq> set ''0123456789abcdef''"
    unfolding file_checksum_eq using hexdigest_hex by blast
  show "file_checksum x = hexdigest (Sum256 (ReplaceAll_CRLF (ReplaceAll_CRLF (TrimPrefix x BOM))))"
    by (rule file_checksum_eq)
next
  assume "\<not> Contains x [CR, CR, CR, LF]"
  then have "\<not> Contains (TrimPrefix x BOM) [CR, CR, CR, LF]"
    using Contains_TrimPrefix by blast
  then show "file_checksum (ReplaceAll_CRLF x) = file_checksum x"
    by (simp add: file_checksum_eq TrimPrefix_ReplaceAll_CRLF ReplaceAll_CRLF_stable)
next
  assume "\<not> HasPrefix x BOM"
  then show "file_checksum (BOM @ x) = file_checksum x"
    by (simp add: file_checksum_eq TrimPrefix_BOM_append)
qed

theorem checksum_stability_witness:
  "\<not> Contains (''a'' @ [CR, LF] @ ''b'') [CR, CR, CR, LF]
   \<and> \<not> HasPrefix (''a'' @ [CR, LF] @ ''b'') BOM
   \<and> file_checksum (ReplaceAll_CRLF (''a'' @ [CR, LF] @ ''b'')) = file_checksum (''a'' @ [CR, LF] @ ''b'')
   \<and> file_checksum (BOM @ ''a'' @ [CR, LF] @ ''b'') = file_checksum (''a'' @ [CR, LF] @ ''b'')"
  using checksum_stability [of "''a'' @ [CR, LF] @ ''b''"]
  by (simp add: HasPrefix_def BOM_def CR_def LF_def)

text \<open>
  C2 as stated fails: the replacement is not idempotent, so the file CR CR CR LF and
  the same file with its CRLF replaced by LF (CR CR LF) have different checksums
  (the SHA-256 of CR LF and of LF); and only one byte order mark is removed, so two
  marks and one mark have different checksums (the SHA-256 of the mark and of the
  empty string).
\<close>

theorem checksum_stability_counterexample:
  "file_checksum [CR, CR, CR, LF] \<noteq> file_checksum (ReplaceAll_CRLF [CR, CR, CR, LF])
   \<and> file_checksum (BOM @ BOM) \<noteq> file_checksum BOM"
  by (simp add: file_checksum_eq TrimPrefix_def HasPrefix_def BOM_def CR_def LF_def
      sha256_empty sha256_LF sha256_CRLF sha256_BOM)

text \<open>
  C9, as the code has it. After a successful \<open>ParseMigrationFile\<close> the field
  \<open>RawContent\<close> is the bytes of the file with a leading UTF-8 byte order mark removed;
  the line endings are those of the file (the field is assigned before the CRLF
  are replaced).
\<close>

theorem ParseMigrationFile_RawContent:
  "fs (FilePath mig) = Inr content \<Longrightarrow> snd (ParseMigrationFile fs mig) = None \<Longrightarrow>
   RawContent (fst (ParseMigrationFile fs mig)) = TrimPrefix content BOM"
  by (rule ParseMigrationFile_Inr(1))

theorem ParseMigrationFile_RawContent_witness:
  "files_with (BOM @ ''SELECT 1;'' @ [CR, LF])
      (FilePath (scanned_migration TypeVersioned ''001'' ''V001__a.cql''))
     = Inr (BOM @ ''SELECT 1;'' @ [CR, LF])
   \<and> snd (ParseMigrationFile (files_with (BOM @ ''SELECT 1;'' @ [CR, LF]))
        (scanned_migration TypeVersioned ''001'' ''V001__a.cql'')) = None
   \<and> RawContent (fst (ParseMigrationFile (files_with (BOM @ ''SELECT 1;'' @ [CR, LF]))
        (scanned_migration TypeVersioned ''001'' ''V001__a.cql''))) = ''SELECT 1;'' @ [CR, LF]"
  using ParseMigrationFile_RawContent [of "files_with (BOM @ ''SELECT 1;'' @ [CR, LF])"
      "scanned_migration TypeVersioned ''001'' ''V001__a.cql''" "BOM @ ''SELECT 1;'' @ [CR, LF]"]
  by (simp add: files_with_def scanned_migration_def ParseMigrationFile_def
      CalculateChecksumFromContent_def TrimPrefix_def HasPrefix_def BOM_def CR_def splitter_eval)

text \<open>
  C9 as stated fails: the file \<open>SELECT 1;\<close> followed by CRLF parses, and its
  \<open>RawContent\<close> still ends in CRLF; it is not the content with the line endings
  normalized to LF.
\<close>

theorem ParseMigrationFile_RawContent_counterexample:
  "snd (ParseMigrationFile (files_with (''SELECT 1;'' @ [CR, LF]))
        (scanned_migration TypeVersioned ''001'' ''V001__a.cql'')) = None
   \<and> RawContent (fst (ParseMigrationFile (files_with (''SELECT 1;'' @ [CR, LF]))
        (scanned_migration TypeVersioned ''001'' ''V001__a.cql''))) = ''SELECT 1;'' @ [CR, LF]
   \<and> ''SELECT 1;'' @ [CR, LF]
        \<noteq> ReplaceAll_CRLF (TrimPrefix (''SELECT 1;'' @ [CR, LF]) BOM)"
  by (simp add: files_with_def scanned_migration_def ParseMigrationFile_def
      CalculateChecksumFromContent_def TrimPrefix_def HasPrefix_def BOM_def CR_def splitter_eval)

section \<open>Properties of the version order\<close>














section \<open>Properties of the resolver\<close>

lemma ParseMigrationFile_keeps:
  "Type (fst (ParseMigrationFile fs mig)) = Type mig"
  "Version (fst (ParseMigrationFile fs mig)) = Version mig"
  "Description (fst (ParseMigrationFile fs mig)) = Description mig"
  by (simp_all add: ParseMigrationFile_def CalculateChecksumFromContent_def Let_def split: sum.splits)

lemma appliedMap_of_foldl:
  "(foldl (\<lambda>m a. if aSuccess a then m(aVersion a \<mapsto> a) else m) m0 applied v = None)
     = (m0 v = None \<and> v \<notin> set (map aVersion (filter aSuccess applied)))"
  by (induction applied arbitrary: m0) auto

lemma appliedMap_of_None:
  "(appliedMap_of applied v = None) = (v \<notin> set (map aVersion (filter aSuccess applied)))"
  by (simp add: appliedMap_of_def appliedMap_of_foldl)

lemma pending_loop_Inr:
  "pending_loop fs am migs acc = Inr pending \<Longrightarrow>
   pending = acc @ map (\<lambda>m. fst (ParseMigrationFile fs m)) (filter (included fs am) migs)"
proof (induction migs arbitrary: acc)
  case Nil
  then show ?case by simp
next
  case (Cons mig rest)
  obtain mig' e where pm: "ParseMigrationFile fs mig = (mig', e)"
    by (cases "ParseMigrationFile fs mig") auto
  then have mig': "fst (ParseMigrationFile fs mig) = mig'"
    by simp
  show ?case
  proof (cases "Type mig")
    case TypeVersioned
    then have inc: "included fs am mig = (am (Version mig) = None)"
      by (simp add: included_def)
    show ?thesis
    proof (cases "am (Version mig) = None")
      case True
      with Cons.prems TypeVersioned pm
      have r: "pending_loop fs am rest (acc @ [mig']) = Inr pending"
        by (auto split: option.splits)
      from Cons.IH [OF r] inc True mig' show ?thesis by simp
    next
      case False
      with Cons.prems TypeVersioned have r: "pending_loop fs am rest acc = Inr pending"
        by simp
      from Cons.IH [OF r] inc False show ?thesis by simp
    qed
  next
    case TypeUndo
    then have inc: "\<not> included fs am mig"
      by (simp add: included_def)
    from Cons.prems TypeUndo have r: "pending_loop fs am rest acc = Inr pending"
      by simp
    from Cons.IH [OF r] inc show ?thesis by simp
  next
    case TypeRepeatable
    have key: "Version mig' @ ''_'' @ Description mig' = Version mig @ ''_'' @ Description mig"
      using ParseMigrationFile_keeps(2,3) [of fs mig] mig' by simp
    show ?thesis
    proof (cases "included fs am mig")
      case True
      with Cons.prems TypeRepeatable pm key mig'
      have r: "pending_loop fs am rest (acc @ [mig']) = Inr pending"
        by (auto simp: included_def Let_def split: option.splits if_splits)
      from Cons.IH [OF r] True mig' show ?thesis by simp
    next
      case False
      with Cons.prems TypeRepeatable pm key mig'
      have r: "pending_loop fs am rest acc = Inr pending"
        by (auto simp: included_def Let_def split: option.splits if_splits)
      from Cons.IH [OF r] False show ?thesis by simp
    qed
  qed
qed

lemmas example_defs = scanned_migration_def applied_row_def files_with_def

lemmas parse_eval = ParseMigrationFile_def CalculateChecksumFromContent_def TrimPrefix_def
  HasPrefix_def BOM_def CR_def

text \<open>
  C1, as the code has it. \<open>appliedMap\<close> holds the rows with \<open>success = true\<close>, of
  every type. When \<open>GetPendingMigrations\<close> returns a list, a scanned Versioned
  migration is in it exactly when no successful applied row, of whatever type, has
  the migration's version as its version key.
\<close>

theorem GetPendingMigrations_versioned:
  assumes "GetPendingMigrations fs migrations applied = Inr pending"
    and "mig \<in> set migrations" and "Type mig = TypeVersioned"
  shows "(fst (ParseMigrationFile fs mig) \<in> set pending)
           = (Version mig \<notin> set (map aVersion (filter aSuccess applied)))"
proof -
  let ?P = "\<lambda>m. fst (ParseMigrationFile fs m)"
  let ?am = "appliedMap_of applied"
  from assms(1) have p: "pending = map ?P (filter (included fs ?am) migrations)"
    using pending_loop_Inr [of fs ?am migrations "[]" pending]
    by (simp add: GetPendingMigrations_def)
  have inc: "included fs ?am mig = (Version mig \<notin> set (map aVersion (filter aSuccess applied)))"
    using assms(3) by (simp add: included_def appliedMap_of_None)
  show ?thesis
  proof
    assume "?P mig \<in> set pending"
    with p obtain m' where m': "m' \<in> set migrations" "included fs ?am m'" "?P m' = ?P mig"
      by auto
    from m'(3) have "Type m' = Type mig" "Version m' = Version mig"
      using ParseMigrationFile_keeps(1,2) by metis+
    with m'(2) assms(3) have "included fs ?am mig"
      by (simp add: included_def)
    with inc show "Version mig \<notin> set (map aVersion (filter aSuccess applied))" by simp
  next
    assume "Version mig \<notin> set (map aVersion (filter aSuccess applied))"
    with inc have "included fs ?am mig" by simp
    with assms(2) p show "?P mig \<in> set pending" by auto
  qed
qed

theorem GetPendingMigrations_versioned_witness:
  "GetPendingMigrations (files_with ''SELECT 1;'')
      [scanned_migration TypeVersioned ''001'' ''V001__a.cql'',
       scanned_migration TypeVersioned ''002'' ''V002__a.cql'']
      [applied_row ''001'' ''versioned'' True]
     = Inr [fst (ParseMigrationFile (files_with ''SELECT 1;'')
              (scanned_migration TypeVersioned ''002'' ''V002__a.cql''))]
   \<and> scanned_migration TypeVersioned ''002'' ''V002__a.cql''
       \<in> set [scanned_migration TypeVersioned ''001'' ''V001__a.cql'',
               scanned_migration TypeVersioned ''002'' ''V002__a.cql'']
   \<and> Type (scanned_migration TypeVersioned ''002'' ''V002__a.cql'') = TypeVersioned
   \<and> Version (scanned_migration TypeVersioned ''002'' ''V002__a.cql'')
       \<notin> set (map aVersion (filter aSuccess [applied_row ''001'' ''versioned'' True]))
   \<and> fst (ParseMigrationFile (files_with ''SELECT 1;'')
         (scanned_migration TypeVersioned ''002'' ''V002__a.cql''))
       \<in> set [fst (ParseMigrationFile (files_with ''SELECT 1;'')
              (scanned_migration TypeVersioned ''002'' ''V002__a.cql''))]"
  using GetPendingMigrations_versioned [of "files_with ''SELECT 1;''"
      "[scanned_migration TypeVersioned ''001'' ''V001__a.cql'',
        scanned_migration TypeVersioned ''002'' ''V002__a.cql'']"
      "[applied_row ''001'' ''versioned'' True]"
      "[fst (ParseMigrationFile (files_with ''SELECT 1;'')
              (scanned_migration TypeVersioned ''002'' ''V002__a.cql''))]"
      "scanned_migration TypeVersioned ''002'' ''V002__a.cql''"]
  by (simp add: GetPendingMigrations_def appliedMap_of_def example_defs parse_eval splitter_eval)

text \<open>
  C1 as stated fails: rows of type \<open>undo\<close> are not ignored. With the single applied
  row \<open>001\<close> of type \<open>undo\<close> and \<open>success = true\<close>, the Versioned migration \<open>001\<close> is
  not pending, although no successful row other than an undo row has its version.
\<close>

theorem GetPendingMigrations_versioned_counterexample:
  "GetPendingMigrations (files_with ''SELECT 1;'')
      [scanned_migration TypeVersioned ''001'' ''V001__a.cql'']
      [applied_row ''001'' ''undo'' True] = Inr []
   \<and> Type (scanned_migration TypeVersioned ''001'' ''V001__a.cql'') = TypeVersioned
   \<and> Version (scanned_migration TypeVersioned ''001'' ''V001__a.cql'')
       \<notin> set (map aVersion (filter (\<lambda>a. aSuccess a \<and> aType a \<noteq> ''undo'')
            [applied_row ''001'' ''undo'' True]))"
  by (simp add: GetPendingMigrations_def appliedMap_of_def example_defs)






section \<open>Properties of the status command\<close>

lemma status_appliedMap_foldl:
  "(foldl (\<lambda>m a. m(aVersion a \<mapsto> (ft (aAppliedAt a), aChecksum a, aSuccess a))) m0 applied v = None)
     = (m0 v = None \<and> v \<notin> set (map aVersion applied))"
  by (induction applied arbitrary: m0) auto

lemma status_appliedMap_None:
  "(status_appliedMap ft applied v = None) = (v \<notin> set (map aVersion applied))"
  by (simp add: status_appliedMap_def status_appliedMap_foldl)

lemma status_entry_undo:
  "Type mig = TypeUndo \<Longrightarrow>
   (seStatus (status_entry am mig) = ''Available'') = (am (Version mig) = None)
   \<and> (am (Version mig) \<noteq> None \<longrightarrow>
        seStatus (status_entry am mig) = ''Applied'' \<or> seStatus (status_entry am mig) = ''Failed'')"
  by (auto simp: status_entry_def split: option.splits)

text \<open>
  C10. In the status command the applied rows are indexed by their version whatever
  their type. The entry of an Undo file has the status \<open>Available\<close> exactly when no
  applied row has the version of the file as its version; when some applied row has
  it (the row of the Versioned partner, say), the status is \<open>Applied\<close> or \<open>Failed\<close>.
\<close>

theorem status_undo:
  assumes "i < length scanned" and "Type (scanned ! i) = TypeUndo"
  shows "(seStatus (status_entries fs format_time scanned applied ! i) = ''Available'')
           = (Version (scanned ! i) \<notin> set (map aVersion applied))
         \<and> (Version (scanned ! i) \<in> set (map aVersion applied) \<longrightarrow>
              seStatus (status_entries fs format_time scanned applied ! i) = ''Applied''
              \<or> seStatus (status_entries fs format_time scanned applied ! i) = ''Failed'')"
proof -
  let ?mig = "fst (ParseMigrationFile fs (scanned ! i))"
  have t: "Type ?mig = TypeUndo" and v: "Version ?mig = Version (scanned ! i)"
    using assms(2) by (simp_all add: ParseMigrationFile_keeps)
  have e: "status_entries fs format_time scanned applied ! i
             = status_entry (status_appliedMap format_time applied) ?mig"
    using assms(1) by (simp add: status_entries_def)
  show ?thesis
    unfolding e using status_entry_undo [OF t, of "status_appliedMap format_time applied"]
    by (simp add: v status_appliedMap_None)
qed

theorem status_undo_witness:
  "(1::nat) < length [scanned_migration TypeVersioned ''001'' ''V001__a.cql'',
                       scanned_migration TypeUndo ''001'' ''U001__a.cql'']
   \<and> Type ([scanned_migration TypeVersioned ''001'' ''V001__a.cql'',
             scanned_migration TypeUndo ''001'' ''U001__a.cql''] ! 1) = TypeUndo
   \<and> Version ([scanned_migration TypeVersioned ''001'' ''V001__a.cql'',
             scanned_migration TypeUndo ''001'' ''U001__a.cql''] ! 1)
        \<in> set (map aVersion [applied_row ''001'' ''versioned'' True])
   \<and> seStatus (status_entries (files_with ''SELECT 1;'') (\<lambda>t. ''2024-01-01 00:00:00'')
        [scanned_migration TypeVersioned ''001'' ''V001__a.cql'',
         scanned_migration TypeUndo ''001'' ''U001__a.cql'']
        [applied_row ''001'' ''versioned'' True] ! 1) = ''Applied''
   \<and> seStatus (status_entries (files_with ''SELECT 1;'') (\<lambda>t. ''2024-01-01 00:00:00'')
        [scanned_migration TypeVersioned ''001'' ''V001__a.cql'',
         scanned_migration TypeUndo ''001'' ''U001__a.cql'']
        [applied_row ''001'' ''versioned'' True] ! 1) \<noteq> ''Available''"
  using status_undo [of 1 "[scanned_migration TypeVersioned ''001'' ''V001__a.cql'',
         scanned_migration TypeUndo ''001'' ''U001__a.cql'']" "files_with ''SELECT 1;''"
         "\<lambda>t. ''2024-01-01 00:00:00''" "[applied_row ''001'' ''versioned'' True]"]
  by (simp add: status_entries_def status_entry_def status_appliedMap_def example_defs parse_eval
      splitter_eval)

section \<open>Properties of the lock manager\<close>

lemma next_backoff_nth: "next_backoff (nth_backoff j) = nth_backoff (Suc j)"
proof -
  consider "j = 0" | "j = 1" | "j = 2" | "j = 3" | "4 \<le> j"
    by arith
  then show ?thesis
  proof cases
    case 5
    then have "(2::int) ^ 4 \<le> 2 ^ j"
      by (intro power_increasing) auto
    then have "min ((2::int) ^ j) 16 = 16" "min ((2::int) ^ Suc j) 16 = 16"
      by auto
    then show ?thesis
      by (simp add: nth_backoff_def next_backoff_def Second_def)
  qed (simp_all add: nth_backoff_def next_backoff_def Second_def)
qed

lemma Acquire_turn_sleeps:
  "(case Acquire_turn lm owner timeout ttl backoff w of
      Done r w' cs \<Rightarrow> sleeps cs = []
    | Again backoff' w' cs \<Rightarrow>
        (sleeps cs = [] \<and> backoff' = backoff)
        \<or> (sleeps cs = [backoff] \<and> backoff' = next_backoff backoff))"
  by (auto simp: Acquire_turn_def split: prod.splits sum.splits bool.splits)

lemma sleeps_append: "sleeps (cs @ cs') = sleeps cs @ sleeps cs'"
  by (induction cs rule: sleeps.induct) auto

lemma Acquire_loop_sleeps:
  "k < length (sleeps (snd (snd (Acquire_loop fuel lm owner timeout ttl deadline (nth_backoff j) w)))) \<Longrightarrow>
   sleeps (snd (snd (Acquire_loop fuel lm owner timeout ttl deadline (nth_backoff j) w))) ! k
     = nth_backoff (j + k)"
proof (induction fuel arbitrary: j k w)
  case 0
  then show ?case by simp
next
  case (Suc fuel)
  show ?case
  proof (cases "now lm w < deadline")
    case False
    with Suc.prems show ?thesis by simp
  next
    case True
    show ?thesis
    proof (cases "Acquire_turn lm owner timeout ttl (nth_backoff j) w")
      case (Done r w' cs)
      with Acquire_turn_sleeps [where lm = lm and owner = owner and timeout = timeout and ttl = ttl and backoff = "nth_backoff j" and w = w] True Suc.prems
      show ?thesis by simp
    next
      case (Again backoff' w' cs)
      obtain r w'' cs' where rest: "Acquire_loop fuel lm owner timeout ttl deadline backoff' w' = (r, w'', cs')"
        by (cases "Acquire_loop fuel lm owner timeout ttl deadline backoff' w'") auto
      from Again rest True
      have all: "snd (snd (Acquire_loop (Suc fuel) lm owner timeout ttl deadline (nth_backoff j) w)) = cs @ cs'"
        by simp
      from Acquire_turn_sleeps [where lm = lm and owner = owner and timeout = timeout and ttl = ttl and backoff = "nth_backoff j" and w = w] Again
      consider (quiet) "sleeps cs = []" "backoff' = nth_backoff j"
        | (slept) "sleeps cs = [nth_backoff j]" "backoff' = nth_backoff (Suc j)"
        by (auto simp: next_backoff_nth)
      then show ?thesis
      proof cases
        case quiet
        with Suc.prems all have k: "k < length (sleeps cs')"
          by (simp add: sleeps_append)
        from Suc.IH [where k = k and j = j and w = w'] rest quiet k have "sleeps cs' ! k = nth_backoff (j + k)"
          by simp
        with quiet all show ?thesis by (simp add: sleeps_append)
      next
        case slept
        show ?thesis
        proof (cases k)
          case 0
          with slept all show ?thesis by (simp add: sleeps_append)
        next
          case (Suc k')
          with Suc.prems all slept have k: "k' < length (sleeps cs')"
            by (simp add: sleeps_append)
          from Suc.IH [where k = k' and j = "Suc j" and w = w'] rest slept k have "sleeps cs' ! k' = nth_backoff (Suc j + k')"
            by simp
          with slept all Suc show ?thesis by (simp add: sleeps_append)
        qed
      qed
    qed
  qed
qed

lemma Acquire_loop_numeral:
  "Acquire_loop (numeral n) lm owner timeout ttl deadline backoff w =
     (if now lm w < deadline then
        (case Acquire_turn lm owner timeout ttl backoff w of
           Done r w' cs \<Rightarrow> (Some r, w', cs)
         | Again backoff' w' cs \<Rightarrow>
             (case Acquire_loop (pred_numeral n) lm owner timeout ttl deadline backoff' w' of
                (r, w'', cs') \<Rightarrow> (r, w'', cs @ cs')))
      else (Some (Some LockTimeout), w, []))"
  by (simp add: numeral_eq_Suc)

lemma held_turn:
  "Acquire_turn (held_cluster e) owner timeout ttl backoff w
     = (if e < w then Again backoff w [CallExecuteLWT, CallGetCurrentLock, CallForceRelease]
        else Again (next_backoff backoff) (w + backoff) [CallExecuteLWT, CallGetCurrentLock, CallSleep backoff])"
  by (simp add: Acquire_turn_def held_cluster_def)

lemma held_now: "now (held_cluster e) w = w"
  by (simp add: held_cluster_def)


lemma absent_turn:
  "Acquire_turn absent_cluster owner timeout ttl backoff w
     = Again (next_backoff backoff) (w + backoff) [CallExecuteLWT, CallGetCurrentLock, CallSleep backoff]"
  by (simp add: Acquire_turn_def absent_cluster_def held_cluster_def)

lemma absent_now: "now absent_cluster w = w"
  by (simp add: absent_cluster_def held_cluster_def)

lemma held_example:
  "Acquire 10 (held_cluster (3600 * Second)) ''host-0a1b2c3d'' (60 * Second) 0
     = (Some (Some LockTimeout), 63 * Second,
        [CallExecuteLWT, CallGetCurrentLock, CallSleep (1 * Second),
         CallExecuteLWT, CallGetCurrentLock, CallSleep (2 * Second),
         CallExecuteLWT, CallGetCurrentLock, CallSleep (4 * Second),
         CallExecuteLWT, CallGetCurrentLock, CallSleep (8 * Second),
         CallExecuteLWT, CallGetCurrentLock, CallSleep (16 * Second),
         CallExecuteLWT, CallGetCurrentLock, CallSleep (16 * Second),
         CallExecuteLWT, CallGetCurrentLock, CallSleep (16 * Second)])"
  by (simp add: Acquire_def Acquire_loop_numeral held_turn held_now Second_def next_backoff_def)

text \<open>
  C4, as the code has it. In one call of \<open>Acquire\<close> the first sleep lasts 1 second and
  the duration is doubled after a sleep as long as it is below 10 seconds: the sleep
  number \<open>k\<close> (from 0) lasts \<open>min (2^k) 16\<close> seconds, that is 1, 2, 4, 8, 16, 16, ...
  seconds, and no sleep exceeds 16 seconds. This holds of every cluster and of the
  calls made within any number of turns.
\<close>

theorem Acquire_backoff:
  assumes "k < length (sleeps (snd (snd (Acquire fuel lm owner timeout w))))"
  shows "sleeps (snd (snd (Acquire fuel lm owner timeout w))) ! k = Second * min (2 ^ k) 16
         \<and> sleeps (snd (snd (Acquire fuel lm owner timeout w))) ! k \<le> 16 * Second"
proof -
  have one: "1 * Second = nth_backoff 0"
    by (simp add: nth_backoff_def)
  from assms have "sleeps (snd (snd (Acquire fuel lm owner timeout w))) ! k = nth_backoff (0 + k)"
    unfolding Acquire_def one by (rule Acquire_loop_sleeps)
  then show ?thesis
    by (simp add: nth_backoff_def Second_def)
qed

theorem Acquire_backoff_witness:
  "4 < length (sleeps (snd (snd
         (Acquire 10 (held_cluster (3600 * Second)) ''host-0a1b2c3d'' (60 * Second) 0))))
   \<and> sleeps (snd (snd
         (Acquire 10 (held_cluster (3600 * Second)) ''host-0a1b2c3d'' (60 * Second) 0))) ! 4
       = Second * min (2 ^ 4) 16
   \<and> sleeps (snd (snd
         (Acquire 10 (held_cluster (3600 * Second)) ''host-0a1b2c3d'' (60 * Second) 0))) ! 4
       \<le> 16 * Second"
  using Acquire_backoff [of 4 10 "held_cluster (3600 * Second)" "''host-0a1b2c3d''" "60 * Second" 0]
  by (simp add: held_example)

text \<open>
  C4 as stated fails: 8 seconds is below 10 seconds and is doubled. With a timeout of
  60 seconds and the lock held by another agent throughout, \<open>Acquire\<close> sleeps 1, 2, 4,
  8, 16, 16 and 16 seconds and returns the timeout error; 16 seconds exceeds 10.
\<close>

theorem Acquire_backoff_counterexample:
  "fst (Acquire 10 (held_cluster (3600 * Second)) ''host-0a1b2c3d'' (60 * Second) 0)
     = Some (Some LockTimeout)
   \<and> sleeps (snd (snd
         (Acquire 10 (held_cluster (3600 * Second)) ''host-0a1b2c3d'' (60 * Second) 0)))
       = [1 * Second, 2 * Second, 4 * Second, 8 * Second, 16 * Second, 16 * Second, 16 * Second]
   \<and> \<not> 16 * Second \<le> 10 * Second"
  by (simp add: held_example) (simp add: Second_def)

text \<open>
  C5, as the code has it. In a turn of the loop in which the insert is not applied:
  when the lock row is found and has expired, \<open>Acquire\<close> force-releases it and goes to
  the next turn without sleeping, the backoff unchanged; when the lookup of the lock
  row returns an error (the row is absent, or any other error), \<open>Acquire\<close> sleeps for
  the current backoff, updates the backoff and then goes to the next turn.
\<close>

theorem Acquire_retry:
  assumes "now lm w < deadline"
    and "executeLWT lm \<lparr>ID = MigrationLockID, LockedBy = owner, LockedAt = now lm w,
           ExpiresAt = now lm w + timeout\<rparr> ttl w = (Inr False, w1)"
  shows "(GetCurrentLock lm w1 = (Inr lock, w2) \<and> ExpiresAt lock < now lm w2 \<longrightarrow>
            Acquire_loop (Suc fuel) lm owner timeout ttl deadline backoff w
              = (case Acquire_loop fuel lm owner timeout ttl deadline backoff
                        (snd (forceRelease lm w2)) of
                   (r, w', cs) \<Rightarrow>
                     (r, w', [CallExecuteLWT, CallGetCurrentLock, CallForceRelease] @ cs)))
         \<and> (GetCurrentLock lm w1 = (Inl err, w2) \<longrightarrow>
            Acquire_loop (Suc fuel) lm owner timeout ttl deadline backoff w
              = (case Acquire_loop fuel lm owner timeout ttl deadline (next_backoff backoff)
                        (sleep lm backoff w2) of
                   (r, w', cs) \<Rightarrow>
                     (r, w', [CallExecuteLWT, CallGetCurrentLock, CallSleep backoff] @ cs)))"
  using assms by (simp add: Acquire_turn_def)

theorem Acquire_retry_witness:
  "now (held_cluster (- 1)) 0 < 60 * Second
   \<and> executeLWT (held_cluster (- 1)) \<lparr>ID = MigrationLockID, LockedBy = ''host-0a1b2c3d'',
         LockedAt = now (held_cluster (- 1)) 0,
         ExpiresAt = now (held_cluster (- 1)) 0 + 60 * Second\<rparr> 120 0 = (Inr False, 0)
   \<and> GetCurrentLock (held_cluster (- 1)) 0
       = (Inr \<lparr>ID = MigrationLockID, LockedBy = ''other-1a2b3c4d'', LockedAt = 0,
               ExpiresAt = - 1\<rparr>, 0)
   \<and> Acquire_loop (Suc 0) (held_cluster (- 1)) ''host-0a1b2c3d'' (60 * Second) 120
         (60 * Second) (1 * Second) 0
       = (None, 0, [CallExecuteLWT, CallGetCurrentLock, CallForceRelease])
   \<and> now absent_cluster 0 < 60 * Second
   \<and> executeLWT absent_cluster \<lparr>ID = MigrationLockID, LockedBy = ''host-0a1b2c3d'',
         LockedAt = now absent_cluster 0,
         ExpiresAt = now absent_cluster 0 + 60 * Second\<rparr> 120 0 = (Inr False, 0)
   \<and> GetCurrentLock absent_cluster 0 = (Inl ErrNotFound, 0)
   \<and> Acquire_loop (Suc 0) absent_cluster ''host-0a1b2c3d'' (60 * Second) 120
         (60 * Second) (1 * Second) 0
       = (None, 1 * Second, [CallExecuteLWT, CallGetCurrentLock, CallSleep (1 * Second)])"
  using Acquire_retry [of "held_cluster (- 1)" 0 "60 * Second" "''host-0a1b2c3d''" "60 * Second"
      120 0 "\<lparr>ID = MigrationLockID, LockedBy = ''other-1a2b3c4d'', LockedAt = 0,
               ExpiresAt = - 1\<rparr>" 0 0 "1 * Second" ErrNotFound]
    Acquire_retry [of absent_cluster 0 "60 * Second" "''host-0a1b2c3d''" "60 * Second"
      120 0 "\<lparr>ID = MigrationLockID, LockedBy = ''other-1a2b3c4d'', LockedAt = 0,
               ExpiresAt = - 1\<rparr>" 0 0 "1 * Second" ErrNotFound]
  by (simp add: held_cluster_def absent_cluster_def Second_def)

text \<open>
  C5 as stated fails for the absent row: in a cluster where the insert is refused and
  the lookup answers \<open>gocql.ErrNotFound\<close>, \<open>Acquire\<close> sleeps 1 second before its second
  attempt and 2 seconds after it.
\<close>

theorem Acquire_retry_counterexample:
  "GetCurrentLock absent_cluster 0 = (Inl ErrNotFound, 0)
   \<and> Acquire 2 absent_cluster ''host-0a1b2c3d'' (60 * Second) 0
       = (None, 3 * Second,
          [CallExecuteLWT, CallGetCurrentLock, CallSleep (1 * Second),
           CallExecuteLWT, CallGetCurrentLock, CallSleep (2 * Second)])"
  by (simp add: Acquire_def Acquire_loop_numeral absent_turn absent_now Second_def next_backoff_def)
     (simp add: absent_cluster_def held_cluster_def)

section \<open>Properties of the executor\<close>






end
